theory Spec2Isabelle
  imports Main "HOL-Library.AList" "HOL-Library.Word"
begin

section \<open>JavaScript values shared by the modules\<close>

text \<open>
  Every value thrown in the modelled code is an instance of \<open>Error\<close>: a message, and the
  optional numeric properties \<open>status\<close> (set by \<open>RetryableError\<close>) and \<open>statusCode\<close>
  that \<open>withRetry\<close> reads. \<open>None\<close> stands for a property that is \<open>undefined\<close>.
\<close>

datatype js_error = JsError (message: string) (status: "int option") (statusCode: "int option")

text \<open>\<open>new Error(message)\<close>\<close>

definition Error :: "string \<Rightarrow> js_error" where
  "Error m = JsError m None None"

text \<open>\<open>new RetryableError(message, status)\<close> of \<open>shared/retry.ts\<close>\<close>

definition RetryableError :: "string \<Rightarrow> int option \<Rightarrow> js_error" where
  "RetryableError m s = JsError m s None"

type_synonym byte = "8 word"

section \<open>Secret vault (\<open>shared/secret-vault.ts\<close>)\<close>

subsection \<open>Buffers and strings\<close>

text \<open>\<open>buf.toString('hex')\<close>: two lower-case hexadecimal digits for each byte.\<close>

definition hex_digit :: "nat \<Rightarrow> char" where
  "hex_digit n = ''0123456789abcdef'' ! (n mod 16)"

fun to_hex :: "byte list \<Rightarrow> string" where
  "to_hex [] = []"
| "to_hex (b # bs) = hex_digit (unat b div 16) # hex_digit (unat b mod 16) # to_hex bs"

text \<open>
  \<open>Buffer.from(s, 'hex')\<close>: reads pairs of hexadecimal digits (either case) and stops at
  the first pair that is not one; a trailing single character is dropped.
\<close>

definition hex_value :: "char \<Rightarrow> nat option" where
  "hex_value c =
     map_of (zip ''0123456789abcdef'' [0 ..< 16] @ zip ''ABCDEF'' [10 ..< 16]) c"

fun from_hex :: "string \<Rightarrow> byte list" where
  "from_hex (a # b # rest) =
     (case (hex_value a, hex_value b) of
        (Some x, Some y) \<Rightarrow> word_of_nat (16 * x + y) # from_hex rest
      | _ \<Rightarrow> [])"
| "from_hex _ = []"

text \<open>
  \<open>s.split(c)\<close> for a one-character separator. The array is never empty: the result is
  its first element and the list of the others.
\<close>

fun split :: "char \<Rightarrow> string \<Rightarrow> string \<times> string list" where
  "split c [] = ([], [])"
| "split c (x # xs) =
     (case split c xs of (p, ps) \<Rightarrow> if x = c then ([], p # ps) else (x # p, ps))"

subsection \<open>The cipher\<close>

text \<open>
  AES-256-CBC is Node's \<open>crypto\<close> module, not code of the repository, so the vault is
  modelled over any cipher: \<open>cipher key iv value\<close> is the byte string that
  \<open>createCipheriv('aes-256-cbc', key, iv)\<close> followed by \<open>update(value, 'utf8')\<close> and
  \<open>final()\<close> produces, and \<open>decipher key iv data\<close> is what \<open>createDecipheriv\<close>,
  \<open>update\<close> and \<open>final('utf8')\<close> return or throw on the data, where \<open>None\<close> is
  \<open>undefined\<close> data.
\<close>

record crypto =
  cipher :: "byte list \<Rightarrow> byte list \<Rightarrow> string \<Rightarrow> byte list"
  decipher :: "byte list \<Rightarrow> byte list \<Rightarrow> byte list option \<Rightarrow> js_error + string"

text \<open>
  Decryption undoes encryption under the same key and initialization vector (as AES does
  for text that UTF-8 can encode).
\<close>

definition decipher_inverts :: "crypto \<Rightarrow> bool" where
  "decipher_inverts C = (\<forall>k iv v. decipher C k iv (Some (cipher C k iv v)) = Inr v)"

subsection \<open>The vault object\<close>

text \<open>
  The \<open>Map\<close> of secrets is an association list in insertion order with distinct keys
  (\<open>AList.update\<close> replaces the value of a present key in place and appends a new key,
  as \<open>Map.prototype.set\<close> does).
\<close>

record vault =
  secrets :: "(string \<times> string) list"
  encryptionKey :: "byte list"
  isDestroyed :: bool

text \<open>The constructor; its argument is the result of \<open>crypto.randomBytes(32)\<close>.\<close>

definition new_vault :: "byte list \<Rightarrow> vault" where
  "new_vault random32 = \<lparr>secrets = [], encryptionKey = random32, isDestroyed = False\<rparr>"

definition destroyed_error :: js_error where
  "destroyed_error = Error ''Vault has been destroyed''"

text \<open>
  \<open>store(key, value)\<close>; \<open>iv\<close> is the result of the call's \<open>crypto.randomBytes(16)\<close>.
  A method returns what it returns or throws, and the vault as it leaves it.
\<close>

definition store ::
  "crypto \<Rightarrow> vault \<Rightarrow> string \<Rightarrow> string \<Rightarrow> byte list \<Rightarrow> (js_error + unit) \<times> vault" where
  "store C V key val iv =
     (if isDestroyed V then (Inl destroyed_error, V)
      else
        let encrypted = to_hex (cipher C (encryptionKey V) iv val)
        in (Inr (), V\<lparr>secrets := AList.update key (to_hex iv @ '':'' @ encrypted) (secrets V)\<rparr>))"

text \<open>
  \<open>retrieve(key)\<close>. \<open>None\<close> is \<open>null\<close>. A stored string without a colon leaves
  \<open>encrypted\<close> undefined.
\<close>

definition retrieve :: "crypto \<Rightarrow> vault \<Rightarrow> string \<Rightarrow> js_error + string option" where
  "retrieve C V key =
     (if isDestroyed V then Inl destroyed_error
      else
        case map_of (secrets V) key of
          None \<Rightarrow> Inr None
        | Some stored \<Rightarrow>
            if stored = [] then Inr None
            else
              (case split CHR '':'' stored of
                 (ivHex, rest) \<Rightarrow>
                   let iv = from_hex ivHex;
                       encrypted = (case rest of [] \<Rightarrow> None | e # _ \<Rightarrow> Some (from_hex e))
                   in (case decipher C (encryptionKey V) iv encrypted of
                         Inl thrown \<Rightarrow> Inl thrown
                       | Inr decrypted \<Rightarrow> Inr (Some decrypted))))"

text \<open>
  The regular expression \<open>/\{\{secrets\.(\w+)\}\}/\<close>: the leftmost position at which
  \<open>{{secrets.\<close>, a longest non-empty run of word characters and \<open>}}\<close> follow each
  other; the result is capture group 1. (A shorter run cannot match: the character after
  it would be a word character, not a brace.)
\<close>

definition word_char :: "char \<Rightarrow> bool" where
  "word_char c = (c \<in> set ''abcdefghijklmnopqrstuvwxyzABCDEFGHIJKLMNOPQRSTUVWXYZ0123456789_'')"

definition strip_prefix :: "string \<Rightarrow> string \<Rightarrow> string option" where
  "strip_prefix p s = (if take (length p) s = p then Some (drop (length p) s) else None)"

text \<open>A match that starts at the first character: capture group 1 and the text after the match.\<close>

definition match_at_start :: "string \<Rightarrow> (string \<times> string) option" where
  "match_at_start s =
     (case strip_prefix ''{{secrets.'' s of
        None \<Rightarrow> None
      | Some rest \<Rightarrow>
          let name = takeWhile word_char rest
          in if name = [] then None
             else (case strip_prefix ''}}'' (dropWhile word_char rest) of
                     None \<Rightarrow> None
                   | Some post \<Rightarrow> Some (name, post)))"

fun match_secrets :: "string \<Rightarrow> string option" where
  "match_secrets [] = None"
| "match_secrets (c # cs) =
     (case match_at_start (c # cs) of Some (name, _) \<Rightarrow> Some name | None \<Rightarrow> match_secrets cs)"

definition not_found_error :: "string \<Rightarrow> js_error" where
  "not_found_error name = Error (''Secret '' @ [CHR 0x27] @ name @ [CHR 0x27] @ '' not found in vault'')"

text \<open>\<open>resolve(reference)\<close>; \<open>!value\<close> holds of \<open>null\<close> and of the empty string.\<close>

definition resolve :: "crypto \<Rightarrow> vault \<Rightarrow> string \<Rightarrow> js_error + string" where
  "resolve C V reference =
     (if isDestroyed V then Inl destroyed_error
      else
        case match_secrets reference of
          None \<Rightarrow> Inr reference
        | Some name \<Rightarrow>
            (case retrieve C V name of
               Inl e \<Rightarrow> Inl e
             | Inr None \<Rightarrow> Inl (not_found_error name)
             | Inr (Some val) \<Rightarrow> if val = [] then Inl (not_found_error name) else Inr val))"

definition listKeys :: "vault \<Rightarrow> js_error + string list" where
  "listKeys V = (if isDestroyed V then Inl destroyed_error else Inr (map fst (secrets V)))"

definition has :: "vault \<Rightarrow> string \<Rightarrow> bool" where
  "has V key = (map_of (secrets V) key \<noteq> None)"

text \<open>\<open>delete(key)\<close>: whether the key was present, and the vault without it.\<close>

definition delete :: "vault \<Rightarrow> string \<Rightarrow> bool \<times> vault" where
  "delete V key = (map_of (secrets V) key \<noteq> None, V\<lparr>secrets := AList.delete key (secrets V)\<rparr>)"

text \<open>\<open>destroy()\<close>: \<open>Buffer.fill(0)\<close> keeps the length of the key buffer.\<close>

definition destroy :: "vault \<Rightarrow> vault" where
  "destroy V = V\<lparr>secrets := [], encryptionKey := map (\<lambda>_. 0) (encryptionKey V), isDestroyed := True\<rparr>"

record vault_status =
  secretCount :: nat
  status_isDestroyed :: bool

definition getStatus :: "vault \<Rightarrow> vault_status" where
  "getStatus V = \<lparr>secretCount = length (secrets V), status_isDestroyed = isDestroyed V\<rparr>"

subsection \<open>Sequences of calls\<close>

text \<open>
  A client of a vault calls its methods one after the other. \<open>call\<close> is one method call
  (what it returns or throws, and the vault afterwards); \<open>run\<close> is the vault after a
  sequence of calls, whatever each of them returned or threw.
\<close>

datatype vault_op =
    OpStore string string "byte list"
  | OpRetrieve string
  | OpResolve string
  | OpListKeys
  | OpHas string
  | OpDelete string
  | OpDestroy
  | OpGetStatus

datatype vault_value =
    VUndefined
  | VStringOrNull "string option"
  | VString string
  | VKeys "string list"
  | VBoolean bool
  | VStatus vault_status

fun call :: "crypto \<Rightarrow> vault \<Rightarrow> vault_op \<Rightarrow> (js_error + vault_value) \<times> vault" where
  "call C V (OpStore key val iv) =
     (case store C V key val iv of (r, V') \<Rightarrow> (map_sum id (\<lambda>_. VUndefined) r, V'))"
| "call C V (OpRetrieve key) = (map_sum id VStringOrNull (retrieve C V key), V)"
| "call C V (OpResolve reference) = (map_sum id VString (resolve C V reference), V)"
| "call C V OpListKeys = (map_sum id VKeys (listKeys V), V)"
| "call C V (OpHas key) = (Inr (VBoolean (has V key)), V)"
| "call C V (OpDelete key) = (case delete V key of (b, V') \<Rightarrow> (Inr (VBoolean b), V'))"
| "call C V OpDestroy = (Inr VUndefined, destroy V)"
| "call C V OpGetStatus = (Inr (VStatus (getStatus V)), V)"

fun run :: "crypto \<Rightarrow> vault \<Rightarrow> vault_op list \<Rightarrow> vault" where
  "run C V [] = V"
| "run C V (op # ops) = run C (snd (call C V op)) ops"

text \<open>The calls that can change or remove what is stored under \<open>key\<close>.\<close>

fun writes_key :: "string \<Rightarrow> vault_op \<Rightarrow> bool" where
  "writes_key key (OpStore k _ _) = (k = key)"
| "writes_key key (OpDelete k) = (k = key)"
| "writes_key key OpDestroy = True"
| "writes_key key _ = False"

text \<open>
  The reading of "substitutes the decrypted value for the placeholder" on a reference with
  text around the placeholder: the reference with its leftmost placeholder replaced.
\<close>

fun substitute_placeholder :: "string \<Rightarrow> string \<Rightarrow> string" where
  "substitute_placeholder [] val = []"
| "substitute_placeholder (c # cs) val =
     (case match_at_start (c # cs) of
        Some (_, post) \<Rightarrow> val @ post
      | None \<Rightarrow> c # substitute_placeholder cs val)"

text \<open>
  A cipher to evaluate the definitions with on concrete inputs: the ciphertext is the
  bytes of the characters. (The theorems are about every cipher that \<open>decipher_inverts\<close>.)
\<close>

definition copy_crypto :: crypto where
  "copy_crypto =
     \<lparr>cipher = (\<lambda>k iv v. map (\<lambda>c. word_of_nat (of_char c)) v),
      decipher = (\<lambda>k iv data. case data of
                    None \<Rightarrow> Inl (Error ''no data'')
                  | Some bs \<Rightarrow> Inr (map (\<lambda>b. char_of (unat b)) bs))\<rparr>"

section \<open>Retry with exponential backoff (\<open>shared/retry.ts\<close>)\<close>

text \<open>
  The options object; \<open>None\<close> is a property left out, for which the destructuring
  pattern of \<open>withRetry\<close> supplies the default.
\<close>

record retry_options =
  maxRetries :: "int option"
  initialDelayMs :: "int option"
  retryOn :: "int list option"
  label :: "string option"

definition no_options :: retry_options where
  "no_options = \<lparr>maxRetries = None, initialDelayMs = None, retryOn = None, label = None\<rparr>"

definition maxRetries_of :: "retry_options \<Rightarrow> int" where
  "maxRetries_of options = (case maxRetries options of None \<Rightarrow> 3 | Some m \<Rightarrow> m)"

definition initialDelayMs_of :: "retry_options \<Rightarrow> int" where
  "initialDelayMs_of options = (case initialDelayMs options of None \<Rightarrow> 1000 | Some d \<Rightarrow> d)"

definition retryOn_of :: "retry_options \<Rightarrow> int list" where
  "retryOn_of options = (case retryOn options of None \<Rightarrow> [429, 502, 503, 504] | Some l \<Rightarrow> l)"

definition label_of :: "retry_options \<Rightarrow> string" where
  "label_of options = (case label options of None \<Rightarrow> ''API call'' | Some l \<Rightarrow> l)"

text \<open>
  JavaScript on a number that may be undefined: \<open>undefined\<close> and \<open>0\<close> are falsy,
  \<open>a || b\<close> is \<open>a\<close> when \<open>a\<close> is truthy and \<open>b\<close> otherwise, and an array of numbers
  does not include \<open>undefined\<close>.
\<close>

definition truthy :: "int option \<Rightarrow> bool" where
  "truthy x = (case x of None \<Rightarrow> False | Some n \<Rightarrow> n \<noteq> 0)"

definition js_or :: "int option \<Rightarrow> int option \<Rightarrow> int option" where
  "js_or a b = (if truthy a then a else b)"

definition array_includes :: "int list \<Rightarrow> int option \<Rightarrow> bool" where
  "array_includes xs x = (case x of None \<Rightarrow> False | Some n \<Rightarrow> n \<in> set xs)"

text \<open>
  The test of line 39 without its \<open>attempt < maxRetries\<close>, on
  \<open>status = err.status || err.statusCode\<close>.
\<close>

definition retryable :: "int list \<Rightarrow> js_error \<Rightarrow> bool" where
  "retryable retry_on err =
     (let st = js_or (status err) (statusCode err)
      in \<not> truthy st \<or> array_includes retry_on st)"

text \<open>
  What a run of \<open>withRetry\<close> did: the value returned or the error thrown, how many times
  \<open>fn\<close> was invoked, and the waits between the invocations, in milliseconds and in order.
\<close>

record 'a retry_run =
  outcome :: "js_error + 'a"
  calls :: nat
  delays :: "int list"

text \<open>
  The \<open>for\<close> loop from \<open>attempt\<close> on. \<open>fn i\<close> is what the \<open>i\<close>-th invocation of the
  operation does (counting from \<open>0\<close>): the loop invokes it once in each iteration, so
  the invocation in iteration \<open>attempt\<close> is \<open>fn attempt\<close>. The \<open>console.error\<close> line is
  left out.
\<close>

function attempt_loop ::
  "(nat \<Rightarrow> js_error + 'a) \<Rightarrow> int \<Rightarrow> int \<Rightarrow> int list \<Rightarrow> js_error \<Rightarrow> nat \<Rightarrow> int list \<Rightarrow> 'a retry_run" where
  "attempt_loop fn max_retries initial_delay retry_on lastError attempt waited =
     (if int attempt \<le> max_retries then
        (case fn attempt of
           Inr v \<Rightarrow> \<lparr>outcome = Inr v, calls = attempt + 1, delays = waited\<rparr>
         | Inl err \<Rightarrow>
             if int attempt < max_retries \<and> retryable retry_on err
             then attempt_loop fn max_retries initial_delay retry_on err (attempt + 1)
                    (waited @ [initial_delay * 2 ^ attempt])
             else \<lparr>outcome = Inl err, calls = attempt + 1, delays = waited\<rparr>)
      else \<lparr>outcome = Inl lastError, calls = attempt, delays = waited\<rparr>)"
  by pat_completeness auto
termination
  by (relation "measure (\<lambda>(fn, max_retries, initial_delay, retry_on, lastError, attempt, waited).
        nat (max_retries + 1 - int attempt))") auto

declare attempt_loop.simps [simp del]

definition withRetry :: "(nat \<Rightarrow> js_error + 'a) \<Rightarrow> retry_options \<Rightarrow> 'a retry_run" where
  "withRetry fn options =
     attempt_loop fn (maxRetries_of options) (initialDelayMs_of options) (retryOn_of options)
       (Error ''No attempts made'') 0 []"

text \<open>
  What a run of the loop that starts at \<open>attempt\<close> with the waits \<open>waited\<close> behind it
  has done, read off its result: between one and the attempts that remain were made, the
  waits double, the result is that of the last invocation, every invocation but the last
  failed retryably with attempts remaining, and the last one did not.
\<close>

definition loop_ok ::
  "(nat \<Rightarrow> js_error + 'a) \<Rightarrow> int \<Rightarrow> int \<Rightarrow> int list \<Rightarrow> nat \<Rightarrow> int list \<Rightarrow> 'a retry_run \<Rightarrow> bool" where
  "loop_ok fn M D R a w r \<longleftrightarrow>
     a < calls r \<and> int (calls r) \<le> M + 1
     \<and> delays r = w @ map (\<lambda>i. D * 2 ^ i) [a ..< calls r - 1]
     \<and> outcome r = fn (calls r - 1)
     \<and> (\<forall>i. a \<le> i \<and> i + 1 < calls r \<longrightarrow> (\<exists>e. fn i = Inl e \<and> int i < M \<and> retryable R e))
     \<and> (\<forall>e. fn (calls r - 1) = Inl e \<longrightarrow> \<not> (int (calls r - 1) < M \<and> retryable R e))"

text \<open>
  The rule as the specification words it, "the failure carries no status code or its
  status code is a member of the retryable set": a status code is carried when either
  property is a number.
\<close>

definition carried_status :: "js_error \<Rightarrow> int option" where
  "carried_status err = (case status err of Some s \<Rightarrow> Some s | None \<Rightarrow> statusCode err)"

definition retryable_as_specified :: "int list \<Rightarrow> js_error \<Rightarrow> bool" where
  "retryable_as_specified retry_on err =
     (case carried_status err of None \<Rightarrow> True | Some s \<Rightarrow> s \<in> set retry_on)"

text \<open>An operation that fails every time with status \<open>0\<close>.\<close>

definition fails_with_status_0 :: "nat \<Rightarrow> js_error + unit" where
  "fails_with_status_0 i = Inl (RetryableError ''no response'' (Some 0))"

text \<open>An operation that is rate limited twice and then succeeds.\<close>

definition rate_limited_twice :: "nat \<Rightarrow> js_error + string" where
  "rate_limited_twice i =
     (if i < 2 then Inl (RetryableError ''Too Many Requests'' (Some 429)) else Inr ''done'')"

section \<open>Waiting for a project (\<open>supabase/index.ts\<close>)\<close>

text \<open>
  What one pass through the \<open>try\<close> block of \<open>waitForProjectReady\<close> meets: \<open>fetch\<close> or
  \<open>response.json()\<close> throws, the response is not \<open>ok\<close>, or the response is \<open>ok\<close> and
  carries a project status.
\<close>

datatype status_fetch = FetchThrows | ResponseNotOk | ResponseOk string

text \<open>
  The \<open>n\<close>-th poll: what is fetched, and the milliseconds that pass in that iteration
  on top of the poll interval (the request, and any lateness of the timer).
\<close>

record poll =
  fetched :: status_fetch
  took :: nat

record poll_run =
  ended :: "js_error + unit"
  polls :: nat
  finished_at :: nat

definition pollInterval :: nat where
  "pollInterval = 5000"

text \<open>
  A number of milliseconds divided by \<open>1000\<close>, as a template literal prints the
  quotient: the whole seconds, and the remainder as decimals without trailing zeros.
  (Exact while the quotient is below \<open>2 ^ 43\<close>, where a double still tells thousandths
  apart.)
\<close>

definition digit_char :: "nat \<Rightarrow> char" where
  "digit_char d = ''0123456789'' ! (d mod 10)"

fun show_nat :: "nat \<Rightarrow> string" where
  "show_nat n = (if n < 10 then [digit_char n] else show_nat (n div 10) @ [digit_char (n mod 10)])"

definition show_thousandths :: "nat \<Rightarrow> string" where
  "show_thousandths r =
     (if r mod 100 = 0 then [digit_char (r div 100)]
      else if r mod 10 = 0 then [digit_char (r div 100), digit_char (r div 10)]
      else [digit_char (r div 100), digit_char (r div 10), digit_char r])"

definition show_seconds :: "nat \<Rightarrow> string" where
  "show_seconds ms =
     show_nat (ms div 1000) @ (if ms mod 1000 = 0 then [] else ''.'' @ show_thousandths (ms mod 1000))"

definition not_ready_error :: "string \<Rightarrow> nat \<Rightarrow> js_error" where
  "not_ready_error projectId maxWaitTime =
     Error (''Project '' @ projectId @ '' did not become ready within '' @ show_seconds maxWaitTime @ ''s'')"

text \<open>
  The \<open>while\<close> loop; \<open>now\<close> is \<open>Date.now() - startTime\<close> at the loop test and \<open>n\<close> the
  number of polls made so far. The \<open>console.error\<close> lines are left out.
\<close>

function poll_loop :: "(nat \<Rightarrow> poll) \<Rightarrow> string \<Rightarrow> nat \<Rightarrow> nat \<Rightarrow> nat \<Rightarrow> poll_run" where
  "poll_loop env projectId maxWaitTime now n =
     (if now < maxWaitTime then
        (case fetched (env n) of
           ResponseOk project_status \<Rightarrow>
             if project_status = ''ACTIVE_HEALTHY''
             then \<lparr>ended = Inr (), polls = n + 1, finished_at = now + took (env n)\<rparr>
             else poll_loop env projectId maxWaitTime (now + took (env n) + pollInterval) (n + 1)
         | ResponseNotOk \<Rightarrow>
             poll_loop env projectId maxWaitTime (now + took (env n) + pollInterval) (n + 1)
         | FetchThrows \<Rightarrow>
             poll_loop env projectId maxWaitTime (now + took (env n) + pollInterval) (n + 1))
      else \<lparr>ended = Inl (not_ready_error projectId maxWaitTime), polls = n, finished_at = now\<rparr>)"
  by pat_completeness auto
termination
  by (relation "measure (\<lambda>(env, projectId, maxWaitTime, now, n). maxWaitTime - now)")
    (auto simp: pollInterval_def)

declare poll_loop.simps [simp del]

definition waitForProjectReady :: "(nat \<Rightarrow> poll) \<Rightarrow> string \<Rightarrow> nat option \<Rightarrow> poll_run" where
  "waitForProjectReady env projectId maxWaitTime =
     poll_loop env projectId (case maxWaitTime of None \<Rightarrow> 120000 | Some w \<Rightarrow> w) 0 0"

text \<open>The time on the loop's clock at which the \<open>n\<close>-th poll would start.\<close>

fun start_time :: "(nat \<Rightarrow> poll) \<Rightarrow> nat \<Rightarrow> nat" where
  "start_time env 0 = 0"
| "start_time env (Suc n) = start_time env n + took (env n) + pollInterval"

definition healthy :: "(nat \<Rightarrow> poll) \<Rightarrow> nat \<Rightarrow> bool" where
  "healthy env n = (fetched (env n) = ResponseOk ''ACTIVE_HEALTHY'')"

text \<open>
  A run that gave up: it threw the error of the last line, after polling as long as a
  poll would start before \<open>W\<close>.
\<close>

definition timed_out :: "(nat \<Rightarrow> poll) \<Rightarrow> string \<Rightarrow> nat \<Rightarrow> nat \<Rightarrow> poll_run \<Rightarrow> bool" where
  "timed_out env pid W n r \<longleftrightarrow>
     ended r = Inl (not_ready_error pid W) \<and> n \<le> polls r \<and> W \<le> start_time env (polls r)
     \<and> finished_at r = start_time env (polls r)
     \<and> (\<forall>j. n \<le> j \<and> j < polls r \<longrightarrow> start_time env j < W)"

text \<open>A project whose status is \<open>INIT_FAILED\<close> at every poll, answered at once.\<close>

definition init_failed :: "nat \<Rightarrow> poll" where
  "init_failed n = \<lparr>fetched = ResponseOk ''INIT_FAILED'', took = 0\<rparr>"

text \<open>
  A status endpoint that throws, then answers 503, then reports \<open>COMING_UP\<close> and from
  the fourth poll on \<open>ACTIVE_HEALTHY\<close>; every request takes 200 ms.
\<close>

definition flaky_then_healthy :: "nat \<Rightarrow> poll" where
  "flaky_then_healthy n =
     \<lparr>fetched = (if n = 0 then FetchThrows else if n = 1 then ResponseNotOk
                 else if n = 2 then ResponseOk ''COMING_UP'' else ResponseOk ''ACTIVE_HEALTHY''),
      took = 200\<rparr>"

section \<open>Tool dispatch (the GitHub server, \<open>supabase/index.ts\<close>)\<close>

text \<open>
  A JSON document; the \<open>text\<close> of a response holds the document that
  \<open>JSON.stringify\<close> serialises, kept as a value.
\<close>

datatype json = JNull | JBool bool | JNum int | JStr string | JArr "json list" | JObj "(string \<times> json) list"

record content_item =
  ctype :: string
  ctext :: json

record tool_response =
  content :: "content_item list"

definition text_response :: "json \<Rightarrow> tool_response" where
  "text_response j = \<lparr>content = [\<lparr>ctype = ''text'', ctext = j\<rparr>]\<rparr>"

text \<open>The object built in the \<open>catch\<close> block of both servers.\<close>

definition failure_response :: "string \<Rightarrow> tool_response" where
  "failure_response errorMessage =
     text_response (JObj [(''success'', JBool False), (''error'', JStr errorMessage)])"

text \<open>The arguments of a call: a JSON object.\<close>

type_synonym arguments = "(string \<times> json) list"

type_synonym handler = "arguments \<Rightarrow> js_error + tool_response"

text \<open>
  The entries of the \<open>ListTools\<close> answers: the name of a tool, the properties of its
  input schema and the required ones (descriptions, types and defaults are left out).
\<close>

record tool_definition =
  tool_name :: string
  properties :: "string list"
  required :: "string list"

definition github_tools :: "tool_definition list" where
  "github_tools =
     [\<lparr>tool_name = ''create_repository'',
       properties = [''name'', ''description'', ''private'', ''template_owner'', ''template_repo''],
       required = [''name'', ''description'']\<rparr>,
      \<lparr>tool_name = ''create_secret'',
       properties = [''owner'', ''repo'', ''secret_name'', ''secret_value''],
       required = [''owner'', ''repo'', ''secret_name'', ''secret_value'']\<rparr>,
      \<lparr>tool_name = ''push_files'',
       properties = [''owner'', ''repo'', ''files'', ''message''],
       required = [''owner'', ''repo'', ''files'']\<rparr>]"

definition supabase_tools :: "tool_definition list" where
  "supabase_tools =
     [\<lparr>tool_name = ''create_project'',
       properties = [''name'', ''region'', ''db_password'', ''plan''],
       required = [''name'', ''db_password'']\<rparr>,
      \<lparr>tool_name = ''execute_sql'',
       properties = [''project_ref'', ''sql''],
       required = [''project_ref'', ''sql'']\<rparr>,
      \<lparr>tool_name = ''configure_auth_provider'',
       properties = [''project_ref'', ''provider'', ''client_id'', ''client_secret'', ''redirect_uri''],
       required = [''project_ref'', ''provider'', ''client_id'', ''client_secret'']\<rparr>,
      \<lparr>tool_name = ''get_project_info'',
       properties = [''project_ref''],
       required = [''project_ref'']\<rparr>]"

text \<open>
  The handlers call GitHub and Supabase; a server is modelled over what its handlers
  do on given arguments: return a response or throw.
\<close>

record github_handlers =
  createRepository :: handler
  createSecret :: handler
  pushFiles :: handler

record supabase_handlers =
  createProject :: handler
  executeSQL :: handler
  configureAuthProvider :: handler
  getProjectInfo :: handler

text \<open>The \<open>switch\<close> statements.\<close>

definition github_switch :: "github_handlers \<Rightarrow> string \<Rightarrow> handler" where
  "github_switch hs name args =
     (if name = ''create_repository'' then createRepository hs args
      else if name = ''create_secret'' then createSecret hs args
      else if name = ''push_files'' then pushFiles hs args
      else Inl (Error (''Unknown tool: '' @ name)))"

definition supabase_switch :: "supabase_handlers \<Rightarrow> string \<Rightarrow> handler" where
  "supabase_switch hs name args =
     (if name = ''create_project'' then createProject hs args
      else if name = ''execute_sql'' then executeSQL hs args
      else if name = ''configure_auth_provider'' then configureAuthProvider hs args
      else if name = ''get_project_info'' then getProjectInfo hs args
      else Inl (Error (''Unknown tool: '' @ name)))"

text \<open>
  The \<open>CallToolRequestSchema\<close> handlers: the \<open>switch\<close> inside \<open>try\<close>, and the
  \<open>catch\<close> block. In \<open>supabase/index.ts\<close> the message is taken under
  \<open>error instanceof Error\<close>, which holds of every \<open>js_error\<close>.
\<close>

definition github_call_tool :: "github_handlers \<Rightarrow> string \<Rightarrow> arguments \<Rightarrow> tool_response" where
  "github_call_tool hs name args =
     (case github_switch hs name args of
        Inr response \<Rightarrow> response
      | Inl error \<Rightarrow> failure_response (message error))"

definition supabase_call_tool :: "supabase_handlers \<Rightarrow> string \<Rightarrow> arguments \<Rightarrow> tool_response" where
  "supabase_call_tool hs name args =
     (case supabase_switch hs name args of
        Inr response \<Rightarrow> response
      | Inl error \<Rightarrow> failure_response (message error))"

subsection \<open>One handler in full: \<open>executeSQL\<close>\<close>

text \<open>
  The request that \<open>fetch\<close> is given, and its answer: whether the response is \<open>ok\<close>,
  and what \<open>response.json()\<close> returns or throws, read under the casts of the source
  (\<open>{ message?: string }\<close>, \<open>{ rows_affected?: number }\<close>).
\<close>

record http_request =
  url :: string
  http_method :: string
  headers :: "(string \<times> string) list"
  body :: json

record response_json =
  json_message :: "string option"
  json_rows_affected :: "int option"

record http_response =
  ok :: bool
  response_json :: "js_error + response_json"

type_synonym fetch = "http_request \<Rightarrow> js_error + http_response"

definition SUPABASE_API_URL :: string where
  "SUPABASE_API_URL = ''https://api.supabase.com/v1''"

text \<open>
  A property of the arguments inside a template literal: \<open>undefined\<close> is printed as
  the word, a string as it is, and the other values as \<open>String(value)\<close> prints them (an
  array as its elements between commas, with nothing for \<open>null\<close>; an object as
  \<open>[object Object]\<close>; a whole number in decimal).
\<close>

definition show_int :: "int \<Rightarrow> string" where
  "show_int i = (if i < 0 then ''-'' @ show_nat (nat (- i)) else show_nat (nat i))"

fun join :: "string list \<Rightarrow> string" where
  "join [] = []"
| "join [x] = x"
| "join (x # y # ys) = x @ '','' @ join (y # ys)"

fun to_string :: "json \<Rightarrow> string" where
  "to_string JNull = ''null''"
| "to_string (JBool b) = (if b then ''true'' else ''false'')"
| "to_string (JNum i) = show_int i"
| "to_string (JStr s) = s"
| "to_string (JArr xs) = join (map (\<lambda>x. if x = JNull then [] else to_string x) xs)"
| "to_string (JObj props) = ''[object Object]''"

definition template_text :: "json option \<Rightarrow> string" where
  "template_text v = (case v of None \<Rightarrow> ''undefined'' | Some j \<Rightarrow> to_string j)"

text \<open>\<open>JSON.stringify({ query: sql })\<close> leaves an undefined property out.\<close>

definition query_body :: "json option \<Rightarrow> json" where
  "query_body sql = JObj (case sql of None \<Rightarrow> [] | Some q \<Rightarrow> [(''query'', q)])"

definition execute_sql :: "fetch \<Rightarrow> string \<Rightarrow> handler" where
  "execute_sql fetch accessToken params =
     (let project_ref = map_of params ''project_ref''; sql = map_of params ''sql''
      in case fetch
           \<lparr>url = SUPABASE_API_URL @ ''/projects/'' @ template_text project_ref @ ''/database/query'',
            http_method = ''POST'',
            headers = [(''Authorization'', ''Bearer '' @ accessToken),
                       (''Content-Type'', ''application/json'')],
            body = query_body sql\<rparr> of
           Inl thrown \<Rightarrow> Inl thrown
         | Inr response \<Rightarrow>
             if \<not> ok response then
               (case response_json response of
                  Inl thrown \<Rightarrow> Inl thrown
                | Inr error \<Rightarrow>
                    Inl (Error (case json_message error of
                                  None \<Rightarrow> ''Failed to execute SQL''
                                | Some m \<Rightarrow> if m = [] then ''Failed to execute SQL'' else m)))
             else
               (case response_json response of
                  Inl thrown \<Rightarrow> Inl thrown
                | Inr data \<Rightarrow>
                    Inr (text_response
                          (JObj [(''success'', JBool True),
                                 (''rows_affected'',
                                  JNum (case json_rows_affected data of
                                          None \<Rightarrow> 0
                                        | Some n \<Rightarrow> if n = 0 then 0 else n))]))))"

text \<open>Whether a message cites a field: the name of the field occurs in it.\<close>

fun cites :: "string \<Rightarrow> string \<Rightarrow> bool" where
  "cites [] field = (field = [])"
| "cites (c # cs) field = (take (length field) (c # cs) = field \<or> cites cs field)"

text \<open>The required fields of a tool that the arguments do not have.\<close>

definition missing_required :: "tool_definition \<Rightarrow> arguments \<Rightarrow> string list" where
  "missing_required tool args = filter (\<lambda>f. map_of args f = None) (required tool)"

text \<open>
  Two answers of the Supabase API to any request: a refusal without a message, and a
  success that reports no affected rows.
\<close>

definition refuses :: fetch where
  "refuses request =
     Inr \<lparr>ok = False, response_json = Inr \<lparr>json_message = None, json_rows_affected = None\<rparr>\<rparr>"

definition accepts :: fetch where
  "accepts request =
     Inr \<lparr>ok = True, response_json = Inr \<lparr>json_message = None, json_rows_affected = None\<rparr>\<rparr>"

text \<open>A handler that an example does not reach.\<close>

definition not_called :: handler where
  "not_called args = Inl (Error ''not called'')"

definition supabase_with :: "fetch \<Rightarrow> supabase_handlers" where
  "supabase_with fetch =
     \<lparr>createProject = not_called, executeSQL = execute_sql fetch ''token'',
      configureAuthProvider = not_called, getProjectInfo = not_called\<rparr>"

text \<open>
  The tools a server registers: the handler that stands behind each name of its
  \<open>ListTools\<close> answer.
\<close>

definition github_registered :: "github_handlers \<Rightarrow> string \<Rightarrow> handler option" where
  "github_registered hs =
     map_of [(''create_repository'', createRepository hs), (''create_secret'', createSecret hs),
             (''push_files'', pushFiles hs)]"

definition supabase_registered :: "supabase_handlers \<Rightarrow> string \<Rightarrow> handler option" where
  "supabase_registered hs =
     map_of [(''create_project'', createProject hs), (''execute_sql'', executeSQL hs),
             (''configure_auth_provider'', configureAuthProvider hs),
             (''get_project_info'', getProjectInfo hs)]"

text \<open>The envelope of a handler's outcome, as the \<open>try\<close> and \<open>catch\<close> blocks build it.\<close>

definition envelope :: "js_error + tool_response \<Rightarrow> tool_response" where
  "envelope result = (case result of Inr response \<Rightarrow> response | Inl error \<Rightarrow> failure_response (message error))"

text \<open>The tool \<open>execute_sql\<close> of the Supabase server, as listed.\<close>

definition execute_sql_tool :: tool_definition where
  "execute_sql_tool =
     \<lparr>tool_name = ''execute_sql'', properties = [''project_ref'', ''sql''],
      required = [''project_ref'', ''sql'']\<rparr>"

section \<open>Properties of the secret vault\<close>

lemma hex_digit_all: "\<forall>n \<in> set [0 ..< 16]. hex_value (hex_digit n) = Some n \<and> hex_digit n \<noteq> CHR '':''"
  by code_simp

lemma hex_digit_nth: "n < 16 \<Longrightarrow> hex_value (hex_digit n) = Some n"
  using hex_digit_all by simp

lemma hex_digit_not_colon: "hex_digit n \<noteq> CHR '':''"
proof -
  have "n mod 16 \<in> set [0 ..< 16]" by simp
  then have "hex_digit (n mod 16) \<noteq> CHR '':''" using hex_digit_all by blast
  then show ?thesis by (simp add: hex_digit_def)
qed

lemma byte_high_nibble: "unat (b :: byte) div 16 < 16"
proof -
  have "unat b < 2 ^ 8" using unsigned_less [of b] by simp
  then show ?thesis by simp
qed

lemma from_hex_to_hex: "from_hex (to_hex bs) = bs"
  by (induction bs) (simp_all add: hex_digit_nth byte_high_nibble)

lemma to_hex_no_colon: "CHR '':'' \<notin> set (to_hex bs)"
  by (induction bs) (simp_all add: hex_digit_not_colon [symmetric])

lemma split_no_sep: "c \<notin> set s \<Longrightarrow> split c s = (s, [])"
  by (induction s) auto

lemma split_append:
  "c \<notin> set a \<Longrightarrow> split c (a @ c # b) = (a, fst (split c b) # snd (split c b))"
  by (induction a) (auto split: prod.splits)

lemma split_stored:
  "split CHR '':'' (to_hex iv @ '':'' @ to_hex ct) = (to_hex iv, [to_hex ct])"
  by (simp add: split_append split_no_sep to_hex_no_colon)

lemma retrieve_stored_form:
  assumes "decipher_inverts C" "\<not> isDestroyed V"
    and "map_of (secrets V) key = Some (to_hex iv @ '':'' @ to_hex (cipher C (encryptionKey V) iv v))"
  shows "retrieve C V key = Inr (Some v)"
  using assms
  by (simp add: retrieve_def split_stored from_hex_to_hex decipher_inverts_def del: append.simps split.simps)

lemma call_keeps_entry:
  assumes "\<not> writes_key key op" "\<not> isDestroyed V"
  shows "map_of (secrets (snd (call C V op))) key = map_of (secrets V) key
     \<and> encryptionKey (snd (call C V op)) = encryptionKey V \<and> \<not> isDestroyed (snd (call C V op))"
  using assms
  by (cases op) (auto simp: store_def delete_def update_conv' delete_conv')

lemma run_keeps_entry:
  assumes "\<forall>op \<in> set ops. \<not> writes_key key op" "\<not> isDestroyed V"
  shows "map_of (secrets (run C V ops)) key = map_of (secrets V) key
     \<and> encryptionKey (run C V ops) = encryptionKey V \<and> \<not> isDestroyed (run C V ops)"
  using assms
proof (induction ops arbitrary: V)
  case Nil
  then show ?case by simp
next
  case (Cons op ops)
  from Cons.prems have a: "\<not> writes_key key op" and b: "\<forall>op \<in> set ops. \<not> writes_key key op" by auto
  note k = call_keeps_entry [OF a Cons.prems(2), of C]
  from k have "\<not> isDestroyed (snd (call C V op))" by simp
  from Cons.IH [OF b this] k show ?case by simp
qed

lemma store_keeps_active: "\<not> isDestroyed V \<Longrightarrow> \<not> isDestroyed (snd (store C V key v iv))"
  by (simp add: store_def)

lemma retrieve_after_store_run:
  assumes inv: "decipher_inverts C" and act: "\<not> isDestroyed V"
    and ops: "\<forall>op \<in> set ops. \<not> writes_key key op"
  shows "retrieve C (run C (snd (store C V key v iv)) ops) key = Inr (Some v)"
proof -
  let ?S = "snd (store C V key v iv)"
  have s: "map_of (secrets ?S) key = Some (to_hex iv @ '':'' @ to_hex (cipher C (encryptionKey V) iv v))"
    and e: "encryptionKey ?S = encryptionKey V"
    using act by (simp_all add: store_def update_conv')
  have a: "\<not> isDestroyed ?S" using act by (rule store_keeps_active)
  note r = run_keeps_entry [OF ops a, where C = C]
  show ?thesis
    by (rule retrieve_stored_form [OF inv]) (use r s e in simp_all)
qed



lemma copy_crypto_inverts: "decipher_inverts copy_crypto"
proof -
  have "char_of (unat (word_of_nat (of_char c) :: byte)) = c" for c :: char
    by (simp add: unsigned_of_nat take_bit_eq_mod)
  then show ?thesis
    by (simp add: decipher_inverts_def copy_crypto_def comp_def)
qed




lemma destroy_fields:
  "isDestroyed (destroy V)" "secrets (destroy V) = []"
  "encryptionKey (destroy V) = replicate (length (encryptionKey V)) 0"
  by (simp_all add: destroy_def map_replicate_const)

lemma destroy_destroy: "destroy (destroy V) = destroy V"
  by (simp add: destroy_def)

lemma call_destroyed: "snd (call C (destroy V) op) = destroy V"
  by (cases op) (simp_all add: store_def delete_def destroy_fields destroy_destroy)

lemma run_destroyed: "run C (destroy V) ops = destroy V"
  by (induction ops) (simp_all add: call_destroyed)

text \<open>
  Claim C10. \<open>destroy()\<close> never throws, on a fresh vault or on one that was destroyed
  before (and used since); destroying twice is destroying once; and afterwards no secret
  is stored, the key buffer holds zeros only and the flag is set.
\<close>
theorem destroy_idempotent:
  "destroy (destroy V) = destroy V
   \<and> call C V OpDestroy = (Inr VUndefined, destroy V)
   \<and> call C (run C (destroy V) ops) OpDestroy = (Inr VUndefined, destroy V)
   \<and> secrets (destroy V) = []
   \<and> encryptionKey (destroy V) = replicate (length (encryptionKey V)) 0
   \<and> isDestroyed (destroy V)"
  by (simp add: run_destroyed destroy_destroy destroy_fields)

text \<open>
  Claim C7. After \<open>destroy()\<close>, and after whatever calls were made since, \<open>store\<close>,
  \<open>retrieve\<close> and \<open>resolve\<close> throw the error "Vault has been destroyed" (the
  \<open>VaultDestroyedError\<close> of the specification; the class of the source is \<open>Error\<close>).
\<close>
theorem destroyed_vault_throws:
  "fst (store C (run C (destroy V) ops) key v iv) = Inl (Error ''Vault has been destroyed'')
   \<and> retrieve C (run C (destroy V) ops) key = Inl (Error ''Vault has been destroyed'')
   \<and> resolve C (run C (destroy V) ops) reference = Inl (Error ''Vault has been destroyed'')"
  by (simp add: run_destroyed store_def retrieve_def resolve_def destroy_fields destroyed_error_def)

text \<open>
  Claim C6, as the code has it. After \<open>destroy()\<close> and whatever calls were made since: the
  flag is still set; \<open>store\<close>, \<open>retrieve\<close>, \<open>resolve\<close> and \<open>listKeys\<close> throw
  "Vault has been destroyed"; \<open>getStatus\<close> does not throw and reports no secrets and
  the flag. (\<open>has\<close> and \<open>delete\<close> carry no test of the flag in the source.)
\<close>
theorem destroyed_vault_calls:
  "isDestroyed (run C (destroy V) ops)
   \<and> fst (call C (run C (destroy V) ops) (OpStore key v iv)) = Inl destroyed_error
   \<and> fst (call C (run C (destroy V) ops) (OpRetrieve key)) = Inl destroyed_error
   \<and> fst (call C (run C (destroy V) ops) (OpResolve reference)) = Inl destroyed_error
   \<and> fst (call C (run C (destroy V) ops) OpListKeys) = Inl destroyed_error
   \<and> fst (call C (run C (destroy V) ops) OpGetStatus)
        = Inr (VStatus \<lparr>secretCount = 0, status_isDestroyed = True\<rparr>)"
  by (simp add: run_destroyed store_def retrieve_def resolve_def listKeys_def getStatus_def destroy_fields)

text \<open>
  C6 as stated fails: on a destroyed vault \<open>getStatus()\<close> returns a value.
\<close>
theorem status_after_destroy_counterexample:
  "\<not> isl (fst (call copy_crypto (destroy (new_vault (replicate 32 1))) OpGetStatus))"
  by simp



lemma strip_prefix_Some: "strip_prefix p s = Some r \<longleftrightarrow> s = p @ r"
  by (auto simp: strip_prefix_def) (metis append_take_drop_id)

lemma match_at_start_Some:
  "match_at_start s = Some (name, post) \<longleftrightarrow>
     s = ''{{secrets.'' @ name @ ''}}'' @ post \<and> name \<noteq> [] \<and> list_all word_char name"
proof
  assume m: "match_at_start s = Some (name, post)"
  then obtain rest where r: "strip_prefix ''{{secrets.'' s = Some rest"
    by (auto simp: match_at_start_def split: option.splits)
  with m have n: "name = takeWhile word_char rest" and ne: "name \<noteq> []"
    and q: "strip_prefix ''}}'' (dropWhile word_char rest) = Some post"
    by (auto simp: match_at_start_def Let_def split: option.splits if_splits)
  have "rest = name @ dropWhile word_char rest" using n by simp
  also have "dropWhile word_char rest = ''}}'' @ post" using q by (simp only: strip_prefix_Some)
  finally have "rest = name @ ''}}'' @ post" .
  moreover have "s = ''{{secrets.'' @ rest" using r by (simp only: strip_prefix_Some)
  moreover have "list_all word_char name" unfolding n list_all_iff by (auto dest: set_takeWhileD)
  ultimately show "s = ''{{secrets.'' @ name @ ''}}'' @ post \<and> name \<noteq> [] \<and> list_all word_char name"
    using ne by simp
next
  assume a: "s = ''{{secrets.'' @ name @ ''}}'' @ post \<and> name \<noteq> [] \<and> list_all word_char name"
  have b: "\<not> word_char CHR ''}''" by (simp add: word_char_def)
  have w: "\<forall>x \<in> set name. word_char x" using a by (simp add: list_all_iff)
  have t: "takeWhile word_char (name @ ''}}'' @ post) = name"
    using w b by (simp add: takeWhile_append2)
  have d: "dropWhile word_char (name @ ''}}'' @ post) = ''}}'' @ post"
    using w b by (simp add: dropWhile_append2)
  have p: "strip_prefix ''{{secrets.'' s = Some (name @ ''}}'' @ post)"
    using a by (simp only: strip_prefix_Some)
  have q: "strip_prefix ''}}'' (''}}'' @ post) = Some post"
    by (simp only: strip_prefix_Some)
  show "match_at_start s = Some (name, post)"
    unfolding match_at_start_def p option.case Let_def t d q using a by simp
qed

lemma match_secrets_sound:
  "match_secrets s = Some name \<Longrightarrow>
   (\<exists>pre post. s = pre @ ''{{secrets.'' @ name @ ''}}'' @ post) \<and> name \<noteq> [] \<and> list_all word_char name"
proof (induction s)
  case Nil
  then show ?case by simp
next
  case (Cons c cs)
  show ?case
  proof (cases "match_at_start (c # cs)")
    case None
    with Cons.prems have "match_secrets cs = Some name" by simp
    from Cons.IH [OF this] obtain pre post where
      "cs = pre @ ''{{secrets.'' @ name @ ''}}'' @ post" "name \<noteq> []" "list_all word_char name" by blast
    then have "c # cs = (c # pre) @ ''{{secrets.'' @ name @ ''}}'' @ post" by simp
    with \<open>name \<noteq> []\<close> \<open>list_all word_char name\<close> show ?thesis by blast
  next
    case (Some np)
    obtain n post where np: "np = (n, post)" by (cases np)
    with Some Cons.prems have "n = name" by simp
    with Some np have "match_at_start (c # cs) = Some (name, post)" by simp
    then have "c # cs = ''{{secrets.'' @ name @ ''}}'' @ post \<and> name \<noteq> [] \<and> list_all word_char name"
      by (rule iffD1 [OF match_at_start_Some])
    then have "c # cs = [] @ ''{{secrets.'' @ name @ ''}}'' @ post" "name \<noteq> []" "list_all word_char name"
      by simp_all
    then show ?thesis by blast
  qed
qed

lemma match_secrets_complete:
  assumes "name \<noteq> []" "list_all word_char name"
  shows "match_secrets (pre @ ''{{secrets.'' @ name @ ''}}'' @ post) \<noteq> None"
proof (induction pre)
  case Nil
  have m: "match_at_start (''{{secrets.'' @ name @ ''}}'' @ post) = Some (name, post)"
    by (rule iffD2 [OF match_at_start_Some]) (use assms in simp)
  obtain c cs where e: "''{{secrets.'' @ name @ ''}}'' @ post = c # cs" by simp
  show ?case using m unfolding append_Nil e by simp
next
  case (Cons c pre)
  then show ?case by (simp split: option.splits)
qed

lemma resolve_no_placeholder:
  "\<not> isDestroyed V \<Longrightarrow> match_secrets r = None \<Longrightarrow> resolve C V r = Inr r"
  by (simp add: resolve_def)

lemma resolve_absent:
  "\<not> isDestroyed V \<Longrightarrow> match_secrets r = Some name \<Longrightarrow> map_of (secrets V) name = None \<Longrightarrow>
   resolve C V r = Inl (not_found_error name)"
  by (simp add: resolve_def retrieve_def)

lemma resolve_stored:
  assumes "decipher_inverts C" "\<not> isDestroyed V" "match_secrets r = Some name" "v \<noteq> []"
  shows "resolve C (snd (store C V name v iv)) r = Inr v"
  using retrieve_after_store_run [OF assms(1,2), where ops = "[]" and key = name and v = v and iv = iv]
    store_keeps_active [OF assms(2), of C name v iv] assms(3,4)
  by (simp add: resolve_def)

text \<open>
  Claim C8, as the code has it. On a vault that is not destroyed: a reference in which
  the pattern does not match is returned unchanged; when it matches and nothing is stored
  under the name, \<open>resolve\<close> throws "Secret '<name>' not found in vault"; when a
  non-empty value was stored under the name, \<open>resolve\<close> returns that value, and nothing
  else of the reference.
\<close>
theorem resolve_reference:
  assumes "\<not> isDestroyed V"
  shows "(match_secrets r = None \<longrightarrow> resolve C V r = Inr r)
    \<and> (match_secrets r = Some name \<and> map_of (secrets V) name = None \<longrightarrow>
         resolve C V r = Inl (Error (''Secret '' @ [CHR 0x27] @ name @ [CHR 0x27] @ '' not found in vault'')))
    \<and> (decipher_inverts C \<and> match_secrets r = Some name \<and> v \<noteq> [] \<longrightarrow>
         resolve C (snd (store C V name v iv)) r = Inr v)"
  using assms resolve_no_placeholder [of V r C] resolve_absent [of V r name C]
    resolve_stored [of C V r name v iv]
  by (simp add: not_found_error_def)


lemma new_vault_active: "\<not> isDestroyed (new_vault random32)"
  by (simp add: new_vault_def)

text \<open>
  C8 on a reference without a placeholder, on one that names a secret that is not stored,
  and on one that names a stored secret.
\<close>

theorem resolve_reference_witness:
  "resolve copy_crypto (new_vault (replicate 32 1)) ''plain text'' = Inr ''plain text''
   \<and> resolve copy_crypto (new_vault (replicate 32 1)) ''{{secrets.missing}}''
       = Inl (Error (''Secret '' @ [CHR 0x27] @ ''missing'' @ [CHR 0x27] @ '' not found in vault''))
   \<and> resolve copy_crypto
        (snd (store copy_crypto (new_vault (replicate 32 1)) ''db_url'' ''postgres://db'' (replicate 16 2)))
        ''{{secrets.db_url}}'' = Inr ''postgres://db''"
proof -
  have m1: "match_secrets ''plain text'' = None" by code_simp
  have m2: "match_secrets ''{{secrets.missing}}'' = Some ''missing''" by code_simp
  have m3: "match_secrets ''{{secrets.db_url}}'' = Some ''db_url''" by code_simp
  have e: "map_of (secrets (new_vault (replicate 32 1))) ''missing'' = None"
    by (simp add: new_vault_def)
  from resolve_reference [OF new_vault_active, where r = "''plain text''" and C = copy_crypto] m1
    resolve_reference [OF new_vault_active, where r = "''{{secrets.missing}}''" and name = "''missing''"
      and C = copy_crypto] m2 e
    resolve_reference [OF new_vault_active, where r = "''{{secrets.db_url}}''" and name = "''db_url''"
      and C = copy_crypto and v = "''postgres://db''"] m3 copy_crypto_inverts
  show ?thesis by simp
qed

text \<open>
  C8 as stated fails on a reference with text around the placeholder: substituting the
  value for the placeholder would give \<open>avb\<close>; \<open>resolve\<close> returns \<open>v\<close>.
\<close>

theorem resolve_surrounding_text_counterexample:
  "resolve copy_crypto
     (snd (store copy_crypto (new_vault (replicate 32 1)) ''k'' ''v'' (replicate 16 2)))
     ''a{{secrets.k}}b'' = Inr ''v''
   \<and> substitute_placeholder ''a{{secrets.k}}b'' ''v'' = ''avb''"
proof -
  have m: "match_secrets ''a{{secrets.k}}b'' = Some ''k''" by code_simp
  have s: "substitute_placeholder ''a{{secrets.k}}b'' ''v'' = ''avb''" by code_simp
  from resolve_stored [OF copy_crypto_inverts new_vault_active m, of "''v''"] s
  show ?thesis by simp
qed

section \<open>Properties of \<open>withRetry\<close>\<close>

lemma attempt_loop_ok:
  "int a \<le> M \<Longrightarrow> loop_ok fn M D R a w (attempt_loop fn M D R le a w)"
proof (induction fn M D R le a w rule: attempt_loop.induct)
  case (1 fn M D R le a w)
  show ?case
  proof (cases "fn a")
    case (Inr v)
    with "1.prems" show ?thesis
      by (subst attempt_loop.simps) (auto simp: loop_ok_def)
  next
    case (Inl err)
    show ?thesis
    proof (cases "int a < M \<and> retryable R err")
      case False
      with Inl "1.prems" show ?thesis
        by (subst attempt_loop.simps) (auto simp: loop_ok_def)
    next
      case True
      let ?r = "attempt_loop fn M D R err (a + 1) (w @ [D * 2 ^ a])"
      from True have "int (a + 1) \<le> M" by simp
      from "1.IH" [OF "1.prems" Inl True this]
      have ih: "loop_ok fn M D R (a + 1) (w @ [D * 2 ^ a]) ?r" .
      have eq: "attempt_loop fn M D R le a w = ?r"
        using True Inl "1.prems" by (subst attempt_loop.simps) simp
      from ih have c: "a + 1 < calls ?r" by (simp add: loop_ok_def)
      then have u: "[a ..< calls ?r - 1] = a # [a + 1 ..< calls ?r - 1]"
        by (simp add: upt_conv_Cons)
      have "\<exists>e. fn i = Inl e \<and> int i < M \<and> retryable R e" if "a \<le> i" "i + 1 < calls ?r" for i
      proof (cases "i = a")
        case True
        with Inl \<open>int a < M \<and> retryable R err\<close> show ?thesis by simp
      next
        case False
        with that have "a + 1 \<le> i" by simp
        moreover from ih have "\<forall>i. a + 1 \<le> i \<and> i + 1 < calls ?r \<longrightarrow>
            (\<exists>e. fn i = Inl e \<and> int i < M \<and> retryable R e)"
          unfolding loop_ok_def by blast
        ultimately show ?thesis using that by blast
      qed
      with ih c u show ?thesis
        unfolding eq by (simp add: loop_ok_def)
    qed
  qed
qed

text \<open>
  Claim C2, as the code has it. With \<open>maxRetries \<ge> 0\<close>: the operation is invoked at least
  once and at most \<open>maxRetries + 1\<close> times; after a failed invocation another one follows
  exactly when attempts remain and the error is \<open>retryable\<close> (its status, read as
  \<open>err.status || err.statusCode\<close>, is undefined or \<open>0\<close>, or is in \<open>retryOn\<close>); the wait
  before retry \<open>i + 1\<close> is \<open>initialDelayMs * 2 ^ i\<close>; an error that is not retryable
  ends the run at once and is the error thrown; a success ends the run and is the value
  returned; in every case the result is that of the last invocation, unchanged, also when
  all \<open>maxRetries + 1\<close> attempts have failed.
\<close>
theorem withRetry_contract:
  assumes "0 \<le> maxRetries_of options" and "r = withRetry fn options"
  shows "1 \<le> calls r \<and> int (calls r) \<le> maxRetries_of options + 1
     \<and> (\<forall>i e. i < calls r \<and> fn i = Inl e \<longrightarrow>
           (i + 1 < calls r \<longleftrightarrow> int i < maxRetries_of options \<and> retryable (retryOn_of options) e))
     \<and> delays r = map (\<lambda>i. initialDelayMs_of options * 2 ^ i) [0 ..< calls r - 1]
     \<and> (\<forall>i e. i < calls r \<and> fn i = Inl e \<and> \<not> retryable (retryOn_of options) e \<longrightarrow>
           calls r = i + 1 \<and> outcome r = Inl e)
     \<and> (\<forall>i v. i < calls r \<and> fn i = Inr v \<longrightarrow> calls r = i + 1 \<and> outcome r = Inr v)
     \<and> outcome r = fn (calls r - 1)
     \<and> (\<forall>e. int (calls r) = maxRetries_of options + 1 \<and> fn (nat (maxRetries_of options)) = Inl e \<longrightarrow>
           outcome r = Inl e)"
proof -
  let ?M = "maxRetries_of options" and ?R = "retryOn_of options"
  from assms(1) have "int 0 \<le> ?M" by simp
  from attempt_loop_ok [OF this, where fn = fn and D = "initialDelayMs_of options" and R = ?R
      and le = "Error ''No attempts made''" and w = "[]"]
  have ok: "loop_ok fn ?M (initialDelayMs_of options) ?R 0 [] r"
    by (simp add: assms(2) withRetry_def)
  then have pos: "0 < calls r" and le: "int (calls r) \<le> ?M + 1"
    and d: "delays r = map (\<lambda>i. initialDelayMs_of options * 2 ^ i) [0 ..< calls r - 1]"
    and out: "outcome r = fn (calls r - 1)"
    and mid: "\<And>i. i + 1 < calls r \<Longrightarrow> \<exists>e. fn i = Inl e \<and> int i < ?M \<and> retryable ?R e"
    and last: "\<And>e. fn (calls r - 1) = Inl e \<Longrightarrow> \<not> (int (calls r - 1) < ?M \<and> retryable ?R e)"
    unfolding loop_ok_def by (simp, simp, simp, simp, blast, blast)
  have c1: "1 \<le> calls r" using pos by simp
  have c3: "\<forall>i e. i < calls r \<and> fn i = Inl e \<longrightarrow>
           (i + 1 < calls r \<longleftrightarrow> int i < ?M \<and> retryable ?R e)"
  proof (intro allI impI)
    fix i e
    assume a: "i < calls r \<and> fn i = Inl e"
    show "i + 1 < calls r \<longleftrightarrow> int i < ?M \<and> retryable ?R e"
    proof
      assume "i + 1 < calls r"
      from mid [OF this] a show "int i < ?M \<and> retryable ?R e" by simp
    next
      assume b: "int i < ?M \<and> retryable ?R e"
      show "i + 1 < calls r"
      proof (rule ccontr)
        assume "\<not> i + 1 < calls r"
        with a have "i = calls r - 1" by arith
        with last a b show False by blast
      qed
    qed
  qed
  have c5: "\<forall>i e. i < calls r \<and> fn i = Inl e \<and> \<not> retryable ?R e \<longrightarrow>
           calls r = i + 1 \<and> outcome r = Inl e"
  proof (intro allI impI)
    fix i e
    assume a: "i < calls r \<and> fn i = Inl e \<and> \<not> retryable ?R e"
    with c3 have "\<not> i + 1 < calls r" by blast
    with a have "calls r = i + 1" by arith
    with out a show "calls r = i + 1 \<and> outcome r = Inl e" by simp
  qed
  have c6: "\<forall>i v. i < calls r \<and> fn i = Inr v \<longrightarrow> calls r = i + 1 \<and> outcome r = Inr v"
  proof (intro allI impI)
    fix i v
    assume a: "i < calls r \<and> fn i = Inr v"
    have "\<not> i + 1 < calls r" using mid [of i] a by auto
    with a have "calls r = i + 1" by arith
    with out a show "calls r = i + 1 \<and> outcome r = Inr v" by simp
  qed
  have c8: "\<forall>e. int (calls r) = ?M + 1 \<and> fn (nat ?M) = Inl e \<longrightarrow> outcome r = Inl e"
  proof (intro allI impI)
    fix e
    assume a: "int (calls r) = ?M + 1 \<and> fn (nat ?M) = Inl e"
    then have "calls r - 1 = nat ?M" by arith
    with out a show "outcome r = Inl e" by simp
  qed
  show ?thesis
    by (intro conjI) (fact c1, fact le, fact c3, fact d, fact c5, fact c6, fact out, fact c8)
qed


text \<open>
  C2 on an operation that is rate limited twice: three invocations, waits of 1000 and
  2000 ms, and the value of the third.
\<close>
theorem withRetry_contract_witness:
  "calls (withRetry rate_limited_twice no_options) = 3
   \<and> delays (withRetry rate_limited_twice no_options) = [1000, 2000]
   \<and> outcome (withRetry rate_limited_twice no_options) = Inr ''done''"
proof -
  have h: "0 \<le> maxRetries_of no_options" by (simp add: maxRetries_of_def no_options_def)
  have c: "calls (withRetry rate_limited_twice no_options) = 3" by code_simp
  have d: "initialDelayMs_of no_options = 1000" by (simp add: initialDelayMs_of_def no_options_def)
  have u: "[0 ..< 3 - 1] = [0, Suc 0]" by (simp add: upt_conv_Cons)
  from withRetry_contract [OF h refl, of rate_limited_twice] c d u show ?thesis
    by (simp add: rate_limited_twice_def)
qed

text \<open>
  C2 as stated fails on an error that carries the status \<open>0\<close>: \<open>0\<close> is not in the
  retryable set, so the rule of the specification propagates it after the first attempt;
  the code, for which \<open>0\<close> is falsy, makes all four attempts.
\<close>
theorem withRetry_status_0_counterexample:
  "\<not> retryable_as_specified (retryOn_of no_options) (RetryableError ''no response'' (Some 0))
   \<and> fails_with_status_0 0 = Inl (RetryableError ''no response'' (Some 0))
   \<and> calls (withRetry fails_with_status_0 no_options) = 4
   \<and> delays (withRetry fails_with_status_0 no_options) = [1000, 2000, 4000]"
  by code_simp

section \<open>Properties of \<open>waitForProjectReady\<close>\<close>

lemma poll_loop_late:
  "\<not> now < W \<Longrightarrow>
   poll_loop env pid W now n = \<lparr>ended = Inl (not_ready_error pid W), polls = n, finished_at = now\<rparr>"
  by (subst poll_loop.simps) simp

lemma poll_loop_done:
  "now < W \<Longrightarrow> healthy env n \<Longrightarrow>
   poll_loop env pid W now n = \<lparr>ended = Inr (), polls = n + 1, finished_at = now + took (env n)\<rparr>"
  by (subst poll_loop.simps) (simp add: healthy_def)

lemma poll_loop_step:
  "now < W \<Longrightarrow> \<not> healthy env n \<Longrightarrow>
   poll_loop env pid W now n = poll_loop env pid W (now + took (env n) + pollInterval) (n + 1)"
  by (subst poll_loop.simps) (simp add: healthy_def split: status_fetch.splits)

lemma start_time_mono: "n \<le> m \<Longrightarrow> start_time env n \<le> start_time env m"
  by (induction m) (auto simp: le_Suc_eq)

lemma start_time_strict: "n < m \<Longrightarrow> start_time env n < start_time env m"
proof -
  assume "n < m"
  then have "Suc n \<le> m" by simp
  from start_time_mono [OF this, of env] show ?thesis by (simp add: pollInterval_def)
qed

lemma poll_loop_first_healthy:
  assumes "healthy env m" "start_time env m < W"
  shows "n \<le> m \<Longrightarrow> (\<forall>j. n \<le> j \<and> j < m \<longrightarrow> \<not> healthy env j) \<Longrightarrow>
     poll_loop env pid W (start_time env n) n
       = \<lparr>ended = Inr (), polls = m + 1, finished_at = start_time env m + took (env m)\<rparr>"
proof (induction "m - n" arbitrary: n)
  case 0
  then have "n = m" by simp
  with assms show ?case by (simp add: poll_loop_done)
next
  case (Suc k)
  then have lt: "n < m" and nh: "\<not> healthy env n" by auto
  from start_time_strict [OF lt, of env] assms(2) have now: "start_time env n < W" by simp
  have "k = m - Suc n" using Suc.hyps(2) by simp
  moreover have "Suc n \<le> m" using lt by simp
  moreover have "\<forall>j. Suc n \<le> j \<and> j < m \<longrightarrow> \<not> healthy env j" using Suc.prems(2) by simp
  ultimately have "poll_loop env pid W (start_time env (Suc n)) (Suc n)
       = \<lparr>ended = Inr (), polls = m + 1, finished_at = start_time env m + took (env m)\<rparr>"
    by (rule Suc.hyps(1))
  then show ?case by (simp add: poll_loop_step [OF now nh])
qed

lemma poll_loop_never_healthy:
  assumes "\<forall>j. start_time env j < W \<longrightarrow> \<not> healthy env j"
  shows "timed_out env pid W n (poll_loop env pid W (start_time env n) n)"
proof (induction "W - start_time env n" arbitrary: n rule: less_induct)
  case less
  show ?case
  proof (cases "start_time env n < W")
    case False
    then show ?thesis by (simp add: poll_loop_late timed_out_def)
  next
    case True
    with assms have nh: "\<not> healthy env n" by simp
    let ?r = "poll_loop env pid W (start_time env (Suc n)) (Suc n)"
    have "W - start_time env (Suc n) < W - start_time env n"
      using True by (simp add: pollInterval_def)
    then have ih: "timed_out env pid W (Suc n) ?r" by (rule less)
    have eq: "poll_loop env pid W (start_time env n) n = ?r"
      by (simp add: poll_loop_step [OF True nh])
    have "start_time env j < W" if "n \<le> j" "j < polls ?r" for j
    proof (cases "j = n")
      case True
      with \<open>start_time env n < W\<close> show ?thesis by simp
    next
      case False
      with that have "Suc n \<le> j" by simp
      with ih that show ?thesis unfolding timed_out_def by blast
    qed
    moreover from ih have "n \<le> polls ?r" unfolding timed_out_def by simp
    ultimately show ?thesis using ih unfolding eq timed_out_def by blast
  qed
qed

text \<open>
  Claim C4, as the code has it. If poll \<open>m\<close> is the first to fetch \<open>ACTIVE_HEALTHY\<close> and
  starts before \<open>maxWaitTime\<close> has passed, the wait ends successfully with that poll,
  whatever the polls before it met (an exception, a response that is not \<open>ok\<close>, any
  other status). If no poll that starts before \<open>maxWaitTime\<close> fetches \<open>ACTIVE_HEALTHY\<close>,
  the wait polls as long as a poll starts in time and then throws "Project <id> did not
  become ready within <maxWaitTime / 1000>s". No status ends the wait as a failure.
\<close>
theorem waitForProjectReady_outcomes:
  "(healthy env m \<and> (\<forall>j<m. \<not> healthy env j) \<and> start_time env m < W \<longrightarrow>
      waitForProjectReady env projectId (Some W)
        = \<lparr>ended = Inr (), polls = m + 1, finished_at = start_time env m + took (env m)\<rparr>)
   \<and> ((\<forall>j. start_time env j < W \<longrightarrow> \<not> healthy env j) \<longrightarrow>
      ended (waitForProjectReady env projectId (Some W))
        = Inl (Error (''Project '' @ projectId @ '' did not become ready within ''
                        @ show_seconds W @ ''s''))
      \<and> W \<le> start_time env (polls (waitForProjectReady env projectId (Some W)))
      \<and> (\<forall>j < polls (waitForProjectReady env projectId (Some W)). start_time env j < W)
      \<and> finished_at (waitForProjectReady env projectId (Some W))
          = start_time env (polls (waitForProjectReady env projectId (Some W))))"
proof (intro conjI impI)
  assume "healthy env m \<and> (\<forall>j<m. \<not> healthy env j) \<and> start_time env m < W"
  then show "waitForProjectReady env projectId (Some W)
        = \<lparr>ended = Inr (), polls = m + 1, finished_at = start_time env m + took (env m)\<rparr>"
    using poll_loop_first_healthy [of env m W 0 projectId]
    by (simp add: waitForProjectReady_def)
next
  assume a: "\<forall>j. start_time env j < W \<longrightarrow> \<not> healthy env j"
  note p = poll_loop_never_healthy [OF a, of projectId 0, unfolded timed_out_def]
  from p show "ended (waitForProjectReady env projectId (Some W))
        = Inl (Error (''Project '' @ projectId @ '' did not become ready within ''
                        @ show_seconds W @ ''s''))"
    by (simp add: waitForProjectReady_def not_ready_error_def)
  from p show "W \<le> start_time env (polls (waitForProjectReady env projectId (Some W)))"
    by (simp add: waitForProjectReady_def)
  from p show "\<forall>j < polls (waitForProjectReady env projectId (Some W)). start_time env j < W"
    by (simp add: waitForProjectReady_def)
  from p show "finished_at (waitForProjectReady env projectId (Some W))
          = start_time env (polls (waitForProjectReady env projectId (Some W)))"
    by (simp add: waitForProjectReady_def)
qed

lemma waitForProjectReady_default:
  "waitForProjectReady env projectId None = waitForProjectReady env projectId (Some 120000)"
  by (simp add: waitForProjectReady_def)

lemma show_seconds_examples: "show_seconds 10000 = ''10''" "show_seconds 12000 = ''12''"
  by (simp_all add: show_seconds_def digit_char_def)


lemma flaky_facts:
  "healthy flaky_then_healthy 3" "\<forall>j<3. \<not> healthy flaky_then_healthy j"
  "start_time flaky_then_healthy 3 = 15600" "took (flaky_then_healthy 3) = 200"
  by (simp_all add: healthy_def flaky_then_healthy_def pollInterval_def numeral_3_eq_3 less_Suc_eq)

text \<open>
  C4 on a status endpoint that throws, answers 503, reports \<open>COMING_UP\<close> and then
  \<open>ACTIVE_HEALTHY\<close>, and on a project that never becomes healthy within 10 seconds.
\<close>
theorem waitForProjectReady_outcomes_witness:
  "waitForProjectReady flaky_then_healthy ''abc'' (Some 120000)
     = \<lparr>ended = Inr (), polls = 4, finished_at = 15800\<rparr>
   \<and> ended (waitForProjectReady init_failed ''abc'' (Some 10000))
     = Inl (Error ''Project abc did not become ready within 10s'')"
proof -
  have n: "\<forall>j. start_time init_failed j < 10000 \<longrightarrow> \<not> healthy init_failed j"
    by (simp add: healthy_def init_failed_def)
  from waitForProjectReady_outcomes [of flaky_then_healthy 3 120000 "''abc''"] flaky_facts
    waitForProjectReady_outcomes [of init_failed 0 10000 "''abc''"] n
  show ?thesis by (simp add: show_seconds_examples)
qed


lemma init_failed_facts: "\<not> healthy init_failed n" "took (init_failed n) = 0"
  by (simp_all add: healthy_def init_failed_def)

text \<open>
  C4 as stated fails on a project that reports \<open>INIT_FAILED\<close>: the wait does not end
  with the first poll but polls three times, until 15 seconds have passed, and throws the
  error of a timeout, which names the 12 seconds it was given.
\<close>
theorem waitForProjectReady_failed_status_counterexample:
  "fetched (init_failed 0) = ResponseOk ''INIT_FAILED''
   \<and> waitForProjectReady init_failed ''abc'' (Some 12000)
       = \<lparr>ended = Inl (Error ''Project abc did not become ready within 12s''),
          polls = 3, finished_at = 15000\<rparr>"
proof -
  have "poll_loop init_failed ''abc'' 12000 0 0
      = \<lparr>ended = Inl (not_ready_error ''abc'' 12000), polls = 3, finished_at = 15000\<rparr>"
    by (simp add: poll_loop_step poll_loop_late init_failed_facts pollInterval_def)
  then show ?thesis
    by (simp add: waitForProjectReady_def not_ready_error_def show_seconds_examples)
      (simp add: init_failed_def)
qed

section \<open>Properties of the dispatchers\<close>

lemma github_registered_names: "dom (github_registered g) = set (map tool_name github_tools)"
  by (auto simp: github_registered_def github_tools_def split: if_splits)

lemma supabase_registered_names: "dom (supabase_registered s) = set (map tool_name supabase_tools)"
  by (auto simp: supabase_registered_def supabase_tools_def split: if_splits)

lemma github_switch_registered:
  "github_switch g name args =
     (case github_registered g name of Some h \<Rightarrow> h args | None \<Rightarrow> Inl (Error (''Unknown tool: '' @ name)))"
  by (simp add: github_switch_def github_registered_def)

lemma supabase_switch_registered:
  "supabase_switch s name args =
     (case supabase_registered s name of Some h \<Rightarrow> h args | None \<Rightarrow> Inl (Error (''Unknown tool: '' @ name)))"
  by (simp add: supabase_switch_def supabase_registered_def)

lemma failure_response_eq:
  "failure_response m =
     \<lparr>content = [\<lparr>ctype = ''text'', ctext = JObj [(''success'', JBool False), (''error'', JStr m)]\<rparr>]\<rparr>"
  by (simp add: failure_response_def text_response_def)

text \<open>
  Claim C1. Both dispatchers answer every call with a response, never with an exception
  (\<open>github_call_tool\<close> and \<open>supabase_call_tool\<close> are total functions into
  \<open>tool_response\<close>): for a name that is not registered the response is the envelope
  \<open>{success: false, error: "Unknown tool: <name>"}\<close>; when the handler registered under
  the name throws an error, it is \<open>{success: false, error: <the error's message>}\<close>; when
  the handler returns, it is the handler's value (which every handler of the source builds
  as \<open>{success: true, ...}\<close>). The registered names are those of the \<open>ListTools\<close>
  answer.
\<close>
theorem call_tool_envelope:
  "(github_registered g name = None \<longrightarrow>
      github_call_tool g name args =
        \<lparr>content = [\<lparr>ctype = ''text'',
           ctext = JObj [(''success'', JBool False), (''error'', JStr (''Unknown tool: '' @ name))]\<rparr>]\<rparr>)
   \<and> (github_registered g name = Some h \<and> h args = Inl (JsError m st sc) \<longrightarrow>
      github_call_tool g name args =
        \<lparr>content = [\<lparr>ctype = ''text'',
           ctext = JObj [(''success'', JBool False), (''error'', JStr m)]\<rparr>]\<rparr>)
   \<and> (github_registered g name = Some h \<and> h args = Inr response \<longrightarrow>
      github_call_tool g name args = response)
   \<and> (supabase_registered s name = None \<longrightarrow>
      supabase_call_tool s name args =
        \<lparr>content = [\<lparr>ctype = ''text'',
           ctext = JObj [(''success'', JBool False), (''error'', JStr (''Unknown tool: '' @ name))]\<rparr>]\<rparr>)
   \<and> (supabase_registered s name = Some h' \<and> h' args = Inl (JsError m st sc) \<longrightarrow>
      supabase_call_tool s name args =
        \<lparr>content = [\<lparr>ctype = ''text'',
           ctext = JObj [(''success'', JBool False), (''error'', JStr m)]\<rparr>]\<rparr>)
   \<and> (supabase_registered s name = Some h' \<and> h' args = Inr response \<longrightarrow>
      supabase_call_tool s name args = response)
   \<and> dom (github_registered g) = set (map tool_name github_tools)
   \<and> dom (supabase_registered s) = set (map tool_name supabase_tools)"
  by (simp add: github_call_tool_def supabase_call_tool_def github_switch_registered
      supabase_switch_registered failure_response_eq Error_def github_registered_names
      supabase_registered_names)

lemma execute_sql_refused:
  "execute_sql refuses token args = Inl (Error ''Failed to execute SQL'')"
  by (simp add: execute_sql_def refuses_def Let_def)

lemma execute_sql_accepted:
  "execute_sql accepts token args
     = Inr (text_response (JObj [(''success'', JBool True), (''rows_affected'', JNum 0)]))"
  by (simp add: execute_sql_def accepts_def Let_def)

lemma supabase_with_execute_sql:
  "supabase_registered (supabase_with fetch) ''execute_sql'' = Some (execute_sql fetch ''token'')"
  by (simp add: supabase_registered_def supabase_with_def)

text \<open>
  C1 on the Supabase server: \<open>execute_sql\<close> against an API that refuses, against one
  that accepts, and a tool that does not exist.
\<close>
theorem call_tool_envelope_witness:
  "supabase_call_tool (supabase_with refuses) ''execute_sql'' [(''project_ref'', JStr ''abc''), (''sql'', JStr ''select 1'')]
     = \<lparr>content = [\<lparr>ctype = ''text'',
           ctext = JObj [(''success'', JBool False), (''error'', JStr ''Failed to execute SQL'')]\<rparr>]\<rparr>
   \<and> supabase_call_tool (supabase_with accepts) ''execute_sql'' [(''project_ref'', JStr ''abc''), (''sql'', JStr ''select 1'')]
     = \<lparr>content = [\<lparr>ctype = ''text'',
           ctext = JObj [(''success'', JBool True), (''rows_affected'', JNum 0)]\<rparr>]\<rparr>
   \<and> supabase_call_tool (supabase_with accepts) ''drop_database'' []
     = \<lparr>content = [\<lparr>ctype = ''text'',
           ctext = JObj [(''success'', JBool False), (''error'', JStr ''Unknown tool: drop_database'')]\<rparr>]\<rparr>"
proof -
  let ?args = "[(''project_ref'', JStr ''abc''), (''sql'', JStr ''select 1'')]"
  have u: "supabase_registered (supabase_with accepts) ''drop_database'' = None"
    by (simp add: supabase_registered_def)
  from call_tool_envelope [where s = "supabase_with refuses" and name = "''execute_sql''" and args = ?args
      and h' = "execute_sql refuses ''token''" and m = "''Failed to execute SQL''" and st = None and sc = None]
    call_tool_envelope [where s = "supabase_with accepts" and name = "''execute_sql''" and args = ?args
      and h' = "execute_sql accepts ''token''"
      and response = "text_response (JObj [(''success'', JBool True), (''rows_affected'', JNum 0)])"]
    call_tool_envelope [where s = "supabase_with accepts" and name = "''drop_database''" and args = "[]"]
    u
  show ?thesis
    by (simp add: supabase_with_execute_sql execute_sql_refused execute_sql_accepted Error_def
        text_response_def)
qed

text \<open>
  Claim C5, as the code has it. Neither dispatcher checks the arguments against the input
  schema: for a registered tool and arguments that lack a required field, the handler is
  run on the arguments as they are, and the response is the envelope of what the handler
  does: its value if it returns, a failure with the message of its error if it throws.
\<close>
theorem call_tool_runs_handler:
  "(tool \<in> set github_tools \<and> missing_required tool args \<noteq> [] \<longrightarrow>
      (\<exists>h. github_registered g (tool_name tool) = Some h
         \<and> github_call_tool g (tool_name tool) args = envelope (h args)))
   \<and> (tool \<in> set supabase_tools \<and> missing_required tool args \<noteq> [] \<longrightarrow>
      (\<exists>h. supabase_registered s (tool_name tool) = Some h
         \<and> supabase_call_tool s (tool_name tool) args = envelope (h args)))"
proof (intro conjI impI)
  assume "tool \<in> set github_tools \<and> missing_required tool args \<noteq> []"
  then have "tool_name tool \<in> dom (github_registered g)"
    by (simp add: github_registered_names)
  then obtain h where "github_registered g (tool_name tool) = Some h" by blast
  then show "\<exists>h. github_registered g (tool_name tool) = Some h
         \<and> github_call_tool g (tool_name tool) args = envelope (h args)"
    by (simp add: github_call_tool_def github_switch_registered envelope_def)
next
  assume "tool \<in> set supabase_tools \<and> missing_required tool args \<noteq> []"
  then have "tool_name tool \<in> dom (supabase_registered s)"
    by (simp add: supabase_registered_names)
  then obtain h where "supabase_registered s (tool_name tool) = Some h" by blast
  then show "\<exists>h. supabase_registered s (tool_name tool) = Some h
         \<and> supabase_call_tool s (tool_name tool) args = envelope (h args)"
    by (simp add: supabase_call_tool_def supabase_switch_registered envelope_def)
qed

text \<open>C5 for \<open>execute_sql\<close> called without \<open>project_ref\<close>.\<close>
theorem call_tool_runs_handler_witness:
  "supabase_call_tool (supabase_with accepts) ''execute_sql'' [(''sql'', JStr ''select 1'')]
     = envelope (execute_sql accepts ''token'' [(''sql'', JStr ''select 1'')])"
proof -
  have t: "execute_sql_tool \<in> set supabase_tools" by (simp add: execute_sql_tool_def supabase_tools_def)
  have m: "missing_required execute_sql_tool [(''sql'', JStr ''select 1'')] \<noteq> []"
    by (simp add: missing_required_def execute_sql_tool_def)
  have n: "tool_name execute_sql_tool = ''execute_sql''" by (simp add: execute_sql_tool_def)
  from call_tool_runs_handler [of execute_sql_tool "[(''sql'', JStr ''select 1'')]" _ "supabase_with accepts"] t m
  show ?thesis by (auto simp: n supabase_with_execute_sql)
qed

text \<open>
  C5 as stated fails for \<open>execute_sql\<close> called without its required \<open>project_ref\<close>:
  the handler runs and sends its request; if the API accepts it the response is a success,
  and if the API refuses it without a message the failure reads "Failed to execute SQL",
  which does not cite the field.
\<close>
theorem missing_field_counterexample:
  "execute_sql_tool \<in> set supabase_tools
   \<and> missing_required execute_sql_tool [(''sql'', JStr ''select 1'')] = [''project_ref'']
   \<and> supabase_call_tool (supabase_with accepts) (tool_name execute_sql_tool) [(''sql'', JStr ''select 1'')]
       = text_response (JObj [(''success'', JBool True), (''rows_affected'', JNum 0)])
   \<and> supabase_call_tool (supabase_with refuses) (tool_name execute_sql_tool) [(''sql'', JStr ''select 1'')]
       = failure_response ''Failed to execute SQL''
   \<and> \<not> cites ''Failed to execute SQL'' ''project_ref''"
  by (simp add: execute_sql_tool_def supabase_tools_def missing_required_def supabase_call_tool_def
      supabase_switch_def supabase_with_def execute_sql_refused execute_sql_accepted Error_def)

end
